theory Spec2Isabelle
  imports Complex_Main "HOL-Library.Word" "HOL-Library.Sublist"
begin

section \<open>The metrics namespace of src/main.cpp\<close>

subsection \<open>Value types\<close>

text \<open>
  \<^verbatim>\<open>time_point\<close> is a reading of \<^verbatim>\<open>chrono::system_clock\<close> and \<^verbatim>\<open>period\<close> is
  \<^verbatim>\<open>chrono::nanoseconds\<close>; both are tick counts, modelled as integers (the default
  constructed value of either is 0, the epoch). \<^verbatim>\<open>count_type\<close> is \<^verbatim>\<open>unsigned long\<close>,
  a 64-bit unsigned integer whose addition wraps. \<^verbatim>\<open>gauged_type\<close> is \<^verbatim>\<open>double\<close>; the
  code only stores gauge values and reads them back, so the numeric value is all that is
  modelled. Every call of \<^verbatim>\<open>clock::now()\<close> is an input of the operation that makes it;
  readings are counted in nanoseconds, so that \<^verbatim>\<open>duration_cast<period>\<close> of a difference
  of two readings is that difference. The range of the tick counts is not modelled.
\<close>

type_synonym time_point = int
type_synonym period = int
type_synonym dur_at_time = "time_point \<times> period"
type_synonym count_type = "64 word"
type_synonym count_at_time = "time_point \<times> count_type"
type_synonym gauged_type = real
type_synonym gauge_at_time = "time_point \<times> gauged_type"

datatype error = out_of_range | dangling_reference | back_of_empty

subsection \<open>std::vector as used by the tokens\<close>

text \<open>The literal \<^verbatim>\<open>10 * 1000 * 1000\<close> of the three member initialisers.\<close>

definition preallocated :: nat where
  "preallocated = 10 * 1000 * 1000"

text \<open>
  \<^verbatim>\<open>vector<T> v{n}\<close> with \<^verbatim>\<open>T\<close> a pair: an integer does not convert to a pair, so
  the initializer-list constructor is not viable and the braces select
  \<^verbatim>\<open>vector(size_type n)\<close>, which builds \<^verbatim>\<open>n\<close> value-initialised elements.
\<close>

definition vector_sized :: "nat \<Rightarrow> 'a \<Rightarrow> 'a list" where
  "vector_sized n dflt = replicate n dflt"

definition emplace_back :: "'a list \<Rightarrow> 'a \<Rightarrow> 'a list" where
  "emplace_back v x = v @ [x]"

text \<open>\<^verbatim>\<open>back()\<close> of an empty vector is undefined behaviour: an error of the model.\<close>

definition vector_back :: "'a list \<Rightarrow> error + 'a" where
  "vector_back v = (case v of [] \<Rightarrow> Inl back_of_empty | _ # _ \<Rightarrow> Inr (last v))"

subsection \<open>time_token and its stopper\<close>

record time_token =
  durations :: "dur_at_time list"

text \<open>\<^verbatim>\<open>explicit time_token(Internal)\<close>: only the member initialiser runs.\<close>

definition time_token_Internal :: time_token where
  "time_token_Internal = \<lparr>durations = vector_sized preallocated (0, 0)\<rparr>"

text \<open>
  A reference to a token is the key of the node of the registry's \<^verbatim>\<open>unordered_map\<close>
  that holds it: the map never erases a node and its nodes never move.
\<close>

type_synonym ref = string

record stopper =
  start :: time_point
  time_tok :: ref

text \<open>\<^verbatim>\<open>time_token::operator()\<close>, called on the token behind \<open>this\<close> when the clock reads \<open>now\<close>.\<close>

definition time_token_call :: "ref \<Rightarrow> time_point \<Rightarrow> stopper" where
  "time_token_call this now = \<lparr>start = now, time_tok = this\<rparr>"

text \<open>\<^verbatim>\<open>stopper::stop\<close>: the effect on the token that \<^verbatim>\<open>time_tok\<close> refers to.\<close>

definition stopper_stop :: "stopper \<Rightarrow> time_point \<Rightarrow> time_token \<Rightarrow> time_token" where
  "stopper_stop s now t = t\<lparr>durations := emplace_back (durations t) (now, now - start s)\<rparr>"

subsection \<open>count_token\<close>

record count_token =
  counts :: "count_at_time list"
  current :: count_type

definition count_token_Internal :: count_token where
  "count_token_Internal = \<lparr>counts = vector_sized preallocated (0, 0), current = 0\<rparr>"

text \<open>
  \<^verbatim>\<open>operator+=\<close>: \<^verbatim>\<open>current += many\<close> on the atomic yields the new total, which is the
  value stored in the appended pair.
\<close>

definition count_token_add :: "time_point \<Rightarrow> count_type \<Rightarrow> count_token \<Rightarrow> count_token" where
  "count_token_add now many c =
     (let total = current c + many
      in c\<lparr>counts := emplace_back (counts c) (now, total), current := total\<rparr>)"

text \<open>\<^verbatim>\<open>operator++(int)\<close>.\<close>

definition count_token_incr :: "time_point \<Rightarrow> count_token \<Rightarrow> count_token" where
  "count_token_incr now c = count_token_add now 1 c"

subsection \<open>gauge_token\<close>

record gauge_token =
  readings :: "gauge_at_time list"

definition gauge_token_Internal :: gauge_token where
  "gauge_token_Internal = \<lparr>readings = vector_sized preallocated (0, 0)\<rparr>"

definition gauge_token_set :: "time_point \<Rightarrow> gauged_type \<Rightarrow> gauge_token \<Rightarrow> gauge_token" where
  "gauge_token_set now val g = g\<lparr>readings := emplace_back (readings g) (now, val)\<rparr>"

text \<open>\<^verbatim>\<open>operator=(gauged_type)\<close>.\<close>

definition gauge_token_assign :: "time_point \<Rightarrow> gauged_type \<Rightarrow> gauge_token \<Rightarrow> gauge_token" where
  "gauge_token_assign now val g = gauge_token_set now val g"

text \<open>\<^verbatim>\<open>explicit operator gauged_type()\<close>.\<close>

definition gauge_token_cast :: "gauge_token \<Rightarrow> error + gauged_type" where
  "gauge_token_cast g =
     (if readings g = [] then Inr 0
      else (case vector_back (readings g) of Inl e \<Rightarrow> Inl e | Inr p \<Rightarrow> Inr (snd p)))"

subsection \<open>registry\<close>

record registry =
  timers :: "string \<rightharpoonup> time_token"
  counters :: "string \<rightharpoonup> count_token"
  gauges :: "string \<rightharpoonup> gauge_token"

text \<open>\<^verbatim>\<open>registry::create\<close>: three empty maps.\<close>

definition create :: registry where
  "create = \<lparr>timers = Map.empty, counters = Map.empty, gauges = Map.empty\<rparr>"

text \<open>\<^verbatim>\<open>unordered_map::emplace\<close> inserts only when the key is absent.\<close>

definition emplace :: "('k \<rightharpoonup> 'v) \<Rightarrow> 'k \<Rightarrow> 'v \<Rightarrow> ('k \<rightharpoonup> 'v)" where
  "emplace m k v = (case m k of None \<Rightarrow> m(k \<mapsto> v) | Some _ \<Rightarrow> m)"

text \<open>
  \<^verbatim>\<open>unordered_map::at\<close> throws \<^verbatim>\<open>std::out_of_range\<close> when the key is absent and
  otherwise returns a reference to the mapped value.
\<close>

definition map_at :: "(string \<rightharpoonup> 'v) \<Rightarrow> string \<Rightarrow> error + ref" where
  "map_at m k = (case m k of None \<Rightarrow> Inl out_of_range | Some _ \<Rightarrow> Inr k)"

definition run :: "string \<Rightarrow> registry \<Rightarrow> (error + ref) \<times> registry" where
  "run name r =
     (let r' = r\<lparr>timers := emplace (timers r) name time_token_Internal\<rparr>
      in (map_at (timers r') name, r'))"

definition count :: "string \<Rightarrow> registry \<Rightarrow> (error + ref) \<times> registry" where
  "count name r =
     (let r' = r\<lparr>counters := emplace (counters r) name count_token_Internal\<rparr>
      in (map_at (counters r') name, r'))"

definition gauge :: "string \<Rightarrow> registry \<Rightarrow> (error + ref) \<times> registry" where
  "gauge name r =
     (let r' = r\<lparr>gauges := emplace (gauges r) name gauge_token_Internal\<rparr>
      in (map_at (gauges r') name, r'))"

subsection \<open>Member calls through a reference\<close>

text \<open>
  A member function that mutates its token, called through a reference, rewrites the
  token inside its node. Using a reference to no node is undefined behaviour: an error
  of the model. Below, \<open>stop\<close> is \<^verbatim>\<open>stopper::stop\<close>, \<open>increment\<close> is
  \<^verbatim>\<open>count_token::operator+=\<close>, \<open>set_gauge\<close> is \<^verbatim>\<open>gauge_token::set\<close> and
  \<open>current_value\<close> is \<^verbatim>\<open>gauge_token::operator gauged_type\<close>, each called through a
  reference.
\<close>

definition on_timer :: "ref \<Rightarrow> (time_token \<Rightarrow> time_token) \<Rightarrow> registry \<Rightarrow> error + registry" where
  "on_timer p f r =
     (case timers r p of None \<Rightarrow> Inl dangling_reference
      | Some t \<Rightarrow> Inr (r\<lparr>timers := (timers r)(p \<mapsto> f t)\<rparr>))"

definition on_counter :: "ref \<Rightarrow> (count_token \<Rightarrow> count_token) \<Rightarrow> registry \<Rightarrow> error + registry" where
  "on_counter p f r =
     (case counters r p of None \<Rightarrow> Inl dangling_reference
      | Some c \<Rightarrow> Inr (r\<lparr>counters := (counters r)(p \<mapsto> f c)\<rparr>))"

definition on_gauge :: "ref \<Rightarrow> (gauge_token \<Rightarrow> gauge_token) \<Rightarrow> registry \<Rightarrow> error + registry" where
  "on_gauge p f r =
     (case gauges r p of None \<Rightarrow> Inl dangling_reference
      | Some g \<Rightarrow> Inr (r\<lparr>gauges := (gauges r)(p \<mapsto> f g)\<rparr>))"

definition stop :: "stopper \<Rightarrow> time_point \<Rightarrow> registry \<Rightarrow> error + registry" where
  "stop s now r = on_timer (time_tok s) (stopper_stop s now) r"

definition increment :: "ref \<Rightarrow> time_point \<Rightarrow> count_type \<Rightarrow> registry \<Rightarrow> error + registry" where
  "increment p now many r = on_counter p (count_token_add now many) r"

definition set_gauge :: "ref \<Rightarrow> time_point \<Rightarrow> gauged_type \<Rightarrow> registry \<Rightarrow> error + registry" where
  "set_gauge p now val r = on_gauge p (gauge_token_set now val) r"

definition current_value :: "ref \<Rightarrow> registry \<Rightarrow> error + gauged_type" where
  "current_value p r =
     (case gauges r p of None \<Rightarrow> Inl dangling_reference | Some g \<Rightarrow> gauge_token_cast g)"

text \<open>Successive \<^verbatim>\<open>stop()\<close> calls on one stopper, one clock reading for each.\<close>

fun stop_all :: "stopper \<Rightarrow> time_point list \<Rightarrow> registry \<Rightarrow> error + registry" where
  "stop_all s [] r = Inr r"
| "stop_all s (now # rest) r =
     (case stop s now r of Inl e \<Rightarrow> Inl e | Inr r' \<Rightarrow> stop_all s rest r')"

subsection \<open>Sequences of calls on one token\<close>

text \<open>
  Calls of \<^verbatim>\<open>operator+=\<close> on one counter, each with the clock reading it takes and its
  amount, in the order in which they run.
\<close>

definition increments :: "(time_point \<times> count_type) list \<Rightarrow> count_token \<Rightarrow> count_token" where
  "increments calls c = fold (\<lambda>(now, many). count_token_add now many) calls c"

text \<open>Calls of \<^verbatim>\<open>set\<close> on one gauge, each with its clock reading and its value.\<close>

definition sets :: "(time_point \<times> gauged_type) list \<Rightarrow> gauge_token \<Rightarrow> gauge_token" where
  "sets calls g = fold (\<lambda>(now, val). gauge_token_set now val) calls g"

text \<open>
  \<^verbatim>\<open>gauge_token(gauge_token &&other)\<close>: the new token takes the vector of \<open>other\<close>, and
  the move constructor of \<^verbatim>\<open>std::vector\<close> leaves the vector it takes from empty. The
  result is the new token and \<open>other\<close> as it is left.
\<close>

definition gauge_token_move :: "gauge_token \<Rightarrow> gauge_token \<times> gauge_token" where
  "gauge_token_move other = (\<lparr>readings = readings other\<rparr>, other\<lparr>readings := []\<rparr>)"

text \<open>
  The states of a gauge that the public members of the class can produce: the
  \<^verbatim>\<open>Internal\<close> constructor, \<^verbatim>\<open>set\<close>, \<^verbatim>\<open>operator=\<close> and the move constructor, which
  yields a new token and leaves behind the one moved from.
\<close>

inductive reachable_gauge :: "gauge_token \<Rightarrow> bool" where
  fresh: "reachable_gauge gauge_token_Internal"
| after_set: "reachable_gauge g \<Longrightarrow> reachable_gauge (gauge_token_set now val g)"
| after_assign: "reachable_gauge g \<Longrightarrow> reachable_gauge (gauge_token_assign now val g)"
| moved_to: "reachable_gauge g \<Longrightarrow> reachable_gauge (fst (gauge_token_move g))"
| moved_from: "reachable_gauge g \<Longrightarrow> reachable_gauge (snd (gauge_token_move g))"

text \<open>
  The states among them that no move has emptied: as above, without the token that a
  move leaves behind. These are the states of the tokens of a registry whose tokens are
  never moved from, as in \<^verbatim>\<open>main\<close>.
\<close>

inductive unmoved_gauge :: "gauge_token \<Rightarrow> bool" where
  fresh: "unmoved_gauge gauge_token_Internal"
| after_set: "unmoved_gauge g \<Longrightarrow> unmoved_gauge (gauge_token_set now val g)"
| after_assign: "unmoved_gauge g \<Longrightarrow> unmoved_gauge (gauge_token_assign now val g)"
| moved_to: "unmoved_gauge g \<Longrightarrow> unmoved_gauge (fst (gauge_token_move g))"

subsection \<open>The append-only relation between two states of a registry\<close>

text \<open>
  \<open>kept old new\<close>: a store that existed still exists and its old contents are a prefix of
  its new contents.
\<close>

definition kept :: "'a list option \<Rightarrow> 'a list option \<Rightarrow> bool" where
  "kept old new =
     (case old of None \<Rightarrow> True
      | Some xs \<Rightarrow> (case new of None \<Rightarrow> False | Some ys \<Rightarrow> prefix xs ys))"

definition append_only :: "registry \<Rightarrow> registry \<Rightarrow> bool" where
  "append_only r r' =
     (\<forall>n. kept (map_option durations (timers r n)) (map_option durations (timers r' n)) \<and>
          kept (map_option counts (counters r n)) (map_option counts (counters r' n)) \<and>
          kept (map_option readings (gauges r n)) (map_option readings (gauges r' n)))"

text \<open>The registrations of \<^verbatim>\<open>main\<close>: a timer, a gauge and a counter on a new registry.\<close>

definition main_registry :: registry where
  "main_registry =
     snd (count ''completed'' (snd (gauge ''threads'' (snd (run ''query'' create)))))"

code_pred reachable_gauge .

code_pred unmoved_gauge .

section \<open>Properties of the tokens\<close>

subsection \<open>The vectors\<close>

lemma preallocated_eq: "preallocated = 10000000"
  by (simp add: preallocated_def)

lemma vector_back_nonempty: "v \<noteq> [] \<Longrightarrow> vector_back v = Inr (last v)"
  by (cases v) (simp_all add: vector_back_def)

lemma durations_Internal: "durations time_token_Internal = replicate 10000000 (0, 0)"
  by (simp add: time_token_Internal_def vector_sized_def preallocated_eq)

lemma counts_Internal: "counts count_token_Internal = replicate 10000000 (0, 0)"
  by (simp add: count_token_Internal_def vector_sized_def preallocated_eq)

lemma current_Internal: "current count_token_Internal = 0"
  by (simp add: count_token_Internal_def)

lemma readings_Internal: "readings gauge_token_Internal = replicate 10000000 (0, 0)"
  by (simp add: gauge_token_Internal_def vector_sized_def preallocated_eq)

subsection \<open>Counters\<close>

lemma increments_Nil: "increments [] c = c"
  by (simp add: increments_def)

lemma increments_Cons:
  "increments ((now, many) # calls) c = increments calls (count_token_add now many c)"
  by (simp add: increments_def)

lemma increments_snoc:
  "increments (calls @ [(now, many)]) c = count_token_add now many (increments calls c)"
  by (simp add: increments_def)

lemma current_increments: "current (increments calls c) = current c + sum_list (map snd calls)"
proof (induction calls arbitrary: c)
  case Nil
  show ?case by (simp add: increments_Nil)
next
  case (Cons call calls)
  obtain now many where call: "call = (now, many)" by (cases call)
  show ?case
    by (simp add: call increments_Cons Cons.IH count_token_add_def Let_def add.assoc)
qed

lemma counts_increments:
  "counts (increments calls c) =
     counts c @ map (\<lambda>i. (fst (calls ! i), current c + sum_list (map snd (take (Suc i) calls))))
                    [0..<length calls]"
proof (induction calls rule: rev_induct)
  case Nil
  show ?case by (simp add: increments_Nil)
next
  case (snoc call calls)
  obtain now many where call: "call = (now, many)" by (cases call)
  have old: "map (\<lambda>i. (fst ((calls @ [call]) ! i),
                 current c + sum_list (map snd (take (Suc i) (calls @ [call])))))
              [0..<length calls] =
             map (\<lambda>i. (fst (calls ! i), current c + sum_list (map snd (take (Suc i) calls))))
              [0..<length calls]"
    by (rule map_cong) (auto simp: nth_append)
  show ?case
    using old
    by (simp add: call increments_snoc count_token_add_def Let_def emplace_back_def snoc.IH
        current_increments)
qed

lemma length_counts_increments:
  "length (counts (increments calls c)) = length (counts c) + length calls"
  by (simp add: counts_increments)

text \<open>
  Sums of \<^verbatim>\<open>count_type\<close> values are taken in \<^verbatim>\<open>count_type\<close>, as the counter takes them:
  modulo \<open>2 ^ 64\<close>.
\<close>

lemma unat_sum_list_mod:
  "unat (sum_list (ks :: count_type list)) = sum_list (map unat ks) mod 2 ^ 64"
proof (induction ks)
  case Nil
  show ?case by simp
next
  case (Cons k ks)
  have "unat (k + sum_list ks) = (unat k + unat (sum_list ks)) mod 2 ^ 64"
    by (simp add: unat_word_ariths)
  also have "\<dots> = (unat k + sum_list (map unat ks) mod 2 ^ 64) mod 2 ^ 64"
    by (simp only: Cons.IH)
  also have "\<dots> = (unat k + sum_list (map unat ks)) mod 2 ^ 64"
    by (rule mod_add_right_eq)
  finally show ?case by simp
qed

lemma sum_list_take_le: "sum_list (map f (take n xs)) \<le> sum_list (map (f :: 'a \<Rightarrow> nat) xs)"
proof -
  have "sum_list (map f xs) = sum_list (map f (take n xs)) + sum_list (map f (drop n xs))"
    by (simp only: sum_list_append [symmetric] map_append [symmetric] append_take_drop_id)
  then show ?thesis by simp
qed

lemma unat_current_increments:
  "unat (current (increments calls count_token_Internal)) =
     sum_list (map (unat \<circ> snd) calls) mod 2 ^ 64"
  by (simp add: current_increments current_Internal unat_sum_list_mod comp_def)

lemma counts_increments_current:
  "counts (increments calls count_token_Internal) =
     counts count_token_Internal @
     map (\<lambda>i. (fst (calls ! i), current (increments (take (Suc i) calls) count_token_Internal)))
       [0..<length calls]"
  by (simp add: counts_increments current_increments current_Internal)

text \<open>The two increments of \<^verbatim>\<open>main\<close>.\<close>

lemma main_increments:
  "drop 10000000 (counts (count_token_add 2 100 (count_token_incr 1 count_token_Internal))) =
     [(1, 1), (2, 101)]"
  by (simp add: count_token_incr_def count_token_add_def Let_def emplace_back_def counts_Internal
      current_Internal)

text \<open>
  Claim C1, as stated, fails where the amounts add up to \<open>2 ^ 64\<close> or more: after
  \<^verbatim>\<open>+= 18446744073709551615\<close> and \<^verbatim>\<open>+= 1\<close> on a counter built by the registry the
  running total is 0, and the sum of the two amounts is \<open>2 ^ 64\<close>.
\<close>

theorem increments_total_counterexample:
  "unat (current (increments [(1, 18446744073709551615), (2, 1)] count_token_Internal)) = 0 \<and>
   sum_list (map (unat \<circ> snd) [(1, 18446744073709551615 :: count_type), (2, 1)]) =
     18446744073709551616 \<and>
   unat (current (increments [(1, 18446744073709551615), (2, 1)] count_token_Internal)) \<noteq>
     sum_list (map (unat \<circ> snd) [(1, 18446744073709551615 :: count_type), (2, 1)])"
  by (simp add: current_increments current_Internal)

text \<open>
  Claim C1, amended. On a counter built by the registry, after any sequence of
  \<^verbatim>\<open>operator+=\<close> calls the running total is the sum of the amounts modulo \<open>2 ^ 64\<close>.
  The store holds, after the entries it was built with, one sample for each call, in
  call order: the i-th carries the clock reading of the i-th call and the running total
  right after that call, which is the sum of the first i amounts modulo \<open>2 ^ 64\<close>. Where
  the amounts add up to less than \<open>2 ^ 64\<close>, the total and every recorded total are the
  exact sums.
\<close>

theorem increments_running_total_mod:
  "unat (current (increments calls count_token_Internal)) =
     sum_list (map (unat \<circ> snd) calls) mod 2 ^ 64 \<and>
   counts (increments calls count_token_Internal) =
     counts count_token_Internal @
     map (\<lambda>i. (fst (calls ! i), current (increments (take (Suc i) calls) count_token_Internal)))
       [0..<length calls] \<and>
   map (unat \<circ> snd) (drop (length (counts count_token_Internal))
                       (counts (increments calls count_token_Internal))) =
     map (\<lambda>i. sum_list (map (unat \<circ> snd) (take (Suc i) calls)) mod 2 ^ 64) [0..<length calls] \<and>
   (sum_list (map (unat \<circ> snd) calls) < 2 ^ 64 \<longrightarrow>
      unat (current (increments calls count_token_Internal)) =
        sum_list (map (unat \<circ> snd) calls) \<and>
      map (unat \<circ> snd) (drop (length (counts count_token_Internal))
                          (counts (increments calls count_token_Internal))) =
        map (\<lambda>i. sum_list (map (unat \<circ> snd) (take (Suc i) calls))) [0..<length calls])"
proof -
  have recorded: "map (unat \<circ> snd) (drop (length (counts count_token_Internal))
                       (counts (increments calls count_token_Internal))) =
     map (\<lambda>i. sum_list (map (unat \<circ> snd) (take (Suc i) calls)) mod 2 ^ 64) [0..<length calls]"
    by (simp add: counts_increments_current unat_current_increments comp_def)
  have exact: "map (\<lambda>i. sum_list (map (unat \<circ> snd) (take (Suc i) calls)) mod 2 ^ 64)
                 [0..<length calls] =
               map (\<lambda>i. sum_list (map (unat \<circ> snd) (take (Suc i) calls))) [0..<length calls]"
    if small: "sum_list (map (unat \<circ> snd) calls) < 2 ^ 64"
  proof (rule map_cong [OF refl])
    fix i
    have "sum_list (map (unat \<circ> snd) (take (Suc i) calls)) < 2 ^ 64"
      by (rule le_less_trans [OF sum_list_take_le small])
    then show "sum_list (map (unat \<circ> snd) (take (Suc i) calls)) mod 2 ^ 64 =
               sum_list (map (unat \<circ> snd) (take (Suc i) calls))"
      by (rule mod_less)
  qed
  show ?thesis
    using recorded exact
    by (simp only: unat_current_increments counts_increments_current) simp
qed

theorem increments_running_total_mod_witness:
  "sum_list (map (unat \<circ> snd) [(1, 1 :: count_type), (2, 100)]) < 2 ^ 64 \<and>
   unat (current (increments [(1, 1), (2, 100)] count_token_Internal)) = 101 \<and>
   map (unat \<circ> snd) (drop (length (counts count_token_Internal))
                       (counts (increments [(1, 1), (2, 100)] count_token_Internal))) = [1, 101]"
  using increments_running_total_mod [of "[(1, 1), (2, 100)]"]
  by (simp add: upt_rec current_increments current_Internal)

subsection \<open>Gauges\<close>

lemma gauge_token_cast_nonempty:
  "readings g \<noteq> [] \<Longrightarrow> gauge_token_cast g = Inr (snd (last (readings g)))"
  by (simp add: gauge_token_cast_def vector_back_nonempty)

lemma gauge_token_cast_set: "gauge_token_cast (gauge_token_set now val g) = Inr val"
  by (simp add: gauge_token_cast_nonempty gauge_token_set_def emplace_back_def)

lemma gauge_token_cast_Internal: "gauge_token_cast gauge_token_Internal = Inr 0"
proof -
  have "readings gauge_token_Internal \<noteq> []"
    by (simp add: readings_Internal)
  then show ?thesis
    by (simp add: gauge_token_cast_nonempty) (simp add: readings_Internal)
qed

lemma gauge_token_cast_total: "\<exists>v. gauge_token_cast g = Inr v"
  by (cases "readings g = []") (simp_all add: gauge_token_cast_def vector_back_nonempty)

lemma sets_snoc: "sets (calls @ [(now, val)]) g = gauge_token_set now val (sets calls g)"
  by (simp add: sets_def)

lemma readings_sets: "readings (sets calls g) = readings g @ calls"
proof (induction calls rule: rev_induct)
  case Nil
  show ?case by (simp add: sets_def)
next
  case (snoc call calls)
  obtain now val where call: "call = (now, val)" by (cases call)
  show ?case
    by (simp add: call sets_snoc gauge_token_set_def emplace_back_def snoc.IH)
qed

lemma unmoved_gauge_contents:
  "unmoved_gauge g \<Longrightarrow> \<exists>calls. readings g = replicate 10000000 (0, 0) @ calls"
proof (induction rule: unmoved_gauge.induct)
  case fresh
  show ?case by (simp add: readings_Internal)
next
  case (after_set g now val)
  then show ?case by (auto simp: gauge_token_set_def emplace_back_def)
next
  case (after_assign g now val)
  then show ?case by (auto simp: gauge_token_assign_def gauge_token_set_def emplace_back_def)
next
  case (moved_to g)
  then show ?case by (simp add: gauge_token_move_def)
qed

lemma unmoved_gauge_reachable: "unmoved_gauge g \<Longrightarrow> reachable_gauge g"
  by (induction rule: unmoved_gauge.induct) (auto intro: reachable_gauge.intros)

text \<open>
  Claim C5. The conversion of a gauge to \<^verbatim>\<open>gauged_type\<close> yields 0 on a gauge built by
  the registry and not yet set, and after any sequence of \<^verbatim>\<open>set\<close> calls that ends with
  \<^verbatim>\<open>set(v)\<close>, or with the assignment of \<open>v\<close>, it yields \<open>v\<close>; in no case an error.
\<close>

theorem gauge_current_value:
  "gauge_token_cast gauge_token_Internal = Inr 0 \<and>
   gauge_token_cast (sets (calls @ [(now, v)]) gauge_token_Internal) = Inr v \<and>
   gauge_token_cast (gauge_token_assign now v (sets calls gauge_token_Internal)) = Inr v \<and>
   readings (sets (calls @ [(now, v)]) gauge_token_Internal) =
     readings gauge_token_Internal @ calls @ [(now, v)]"
proof -
  have "gauge_token_cast (sets (calls @ [(now, v)]) gauge_token_Internal) = Inr v"
    by (simp only: sets_snoc gauge_token_cast_set)
  moreover have "gauge_token_cast (gauge_token_assign now v (sets calls gauge_token_Internal)) = Inr v"
    by (simp only: gauge_token_assign_def gauge_token_cast_set)
  ultimately show ?thesis
    by (simp add: gauge_token_cast_Internal readings_sets)
qed

text \<open>
  Claim C9. A token of any kind built by the \<^verbatim>\<open>Internal\<close> constructor holds, before
  any recording, exactly 10,000,000 entries, each the epoch paired with zero: the braces
  of the member initialiser give the vector its size. What is recorded afterwards comes
  after these entries.
\<close>

theorem fresh_store_has_preallocated_entries:
  "durations time_token_Internal = replicate 10000000 (0, 0) \<and>
   counts count_token_Internal = replicate 10000000 (0, 0) \<and>
   readings gauge_token_Internal = replicate 10000000 (0, 0) \<and>
   length (durations time_token_Internal) = 10000000 \<and>
   length (counts count_token_Internal) = 10000000 \<and>
   length (readings gauge_token_Internal) = 10000000 \<and>
   durations (fold (stopper_stop s) nows time_token_Internal) =
     replicate 10000000 (0, 0) @ map (\<lambda>now. (now, now - start s)) nows \<and>
   take 10000000 (counts (increments calls count_token_Internal)) = replicate 10000000 (0, 0) \<and>
   length (counts (increments calls count_token_Internal)) = 10000000 + length calls \<and>
   readings (sets vals gauge_token_Internal) = replicate 10000000 (0, 0) @ vals"
proof -
  have "durations (fold (stopper_stop s) nows t) =
          durations t @ map (\<lambda>now. (now, now - start s)) nows" for t
    by (induction nows arbitrary: t) (simp_all add: stopper_stop_def emplace_back_def)
  then show ?thesis
    by (simp add: durations_Internal counts_Internal readings_Internal counts_increments
        readings_sets)
qed

text \<open>
  Claim C10, as stated, fails on a gauge that has been moved from: the state that
  \<^verbatim>\<open>gauge_token stolen{std::move(g)}\<close> leaves in \<open>g\<close>, a gauge just built by the
  registry, is reachable, its readings are empty, and the conversion to
  \<^verbatim>\<open>gauged_type\<close> takes the branch for the empty store.
\<close>

theorem moved_from_gauge_counterexample:
  "reachable_gauge (snd (gauge_token_move gauge_token_Internal)) \<and>
   readings (snd (gauge_token_move gauge_token_Internal)) = [] \<and>
   gauge_token_cast (snd (gauge_token_move gauge_token_Internal)) = Inr 0"
proof -
  have "reachable_gauge (snd (gauge_token_move gauge_token_Internal))"
    by (intro reachable_gauge.intros)
  then show ?thesis
    by (simp add: gauge_token_move_def gauge_token_cast_def)
qed

text \<open>
  Claim C10, amended. In every state of a gauge that the registry's constructor,
  \<^verbatim>\<open>set\<close>, \<^verbatim>\<open>operator=\<close> and move construction from such a state can produce, that
  is, in every reachable state that no move has emptied, the readings are not empty:
  they start with the 10,000,000 entries of the constructor. There the conversion to
  \<^verbatim>\<open>gauged_type\<close> takes the branch that reads \<^verbatim>\<open>back()\<close>, and on a gauge not yet set
  the 0 it yields is the value of the last of those entries. The gauge that a move
  leaves behind has no readings, and there the 0 comes from the other branch.
\<close>

theorem unmoved_gauge_readings_never_empty:
  assumes "unmoved_gauge g"
  shows "reachable_gauge g \<and>
         readings g \<noteq> [] \<and>
         10000000 \<le> length (readings g) \<and>
         take 10000000 (readings g) = replicate 10000000 (0, 0) \<and>
         gauge_token_cast g = Inr (snd (last (readings g))) \<and>
         last (readings gauge_token_Internal) = (0, 0) \<and>
         gauge_token_cast gauge_token_Internal =
           Inr (snd (last (readings gauge_token_Internal))) \<and>
         readings (snd (gauge_token_move g)) = [] \<and>
         gauge_token_cast (snd (gauge_token_move g)) = Inr 0"
proof -
  obtain calls where g: "readings g = replicate 10000000 (0, 0) @ calls"
    using unmoved_gauge_contents [OF assms] by blast
  have ne: "readings g \<noteq> []"
    by (simp add: g)
  have ne0: "readings gauge_token_Internal \<noteq> []"
    by (simp add: readings_Internal)
  have "last (readings gauge_token_Internal) = (0, 0)"
    by (simp add: readings_Internal)
  moreover have "take 10000000 (readings g) = replicate 10000000 (0, 0)"
    by (simp add: g)
  moreover have "10000000 \<le> length (readings g)"
    by (simp add: g)
  moreover have "readings (snd (gauge_token_move g)) = []"
    by (simp add: gauge_token_move_def)
  moreover have "gauge_token_cast (snd (gauge_token_move g)) = Inr 0"
    by (simp add: gauge_token_move_def gauge_token_cast_def)
  ultimately show ?thesis
    using ne gauge_token_cast_nonempty [OF ne] gauge_token_cast_nonempty [OF ne0]
      unmoved_gauge_reachable [OF assms]
    by simp
qed

theorem unmoved_gauge_readings_never_empty_witness:
  "unmoved_gauge (gauge_token_assign 2 50 (gauge_token_set 1 100 gauge_token_Internal)) \<and>
   readings (gauge_token_assign 2 50 (gauge_token_set 1 100 gauge_token_Internal)) \<noteq> [] \<and>
   length (readings (gauge_token_assign 2 50 (gauge_token_set 1 100 gauge_token_Internal))) =
     10000002 \<and>
   gauge_token_cast (gauge_token_assign 2 50 (gauge_token_set 1 100 gauge_token_Internal)) =
     Inr 50"
proof -
  let ?g = "gauge_token_assign 2 50 (gauge_token_set 1 100 gauge_token_Internal)"
  have r: "unmoved_gauge ?g"
    by (intro unmoved_gauge.intros)
  have "readings ?g = replicate 10000000 (0, 0) @ [(1, 100), (2, 50)]"
    by (simp add: gauge_token_assign_def gauge_token_set_def emplace_back_def readings_Internal)
  then show ?thesis
    using unmoved_gauge_readings_never_empty [OF r] r by simp
qed

lemma fold_count_token_incr:
  "fold count_token_incr nows c = increments (map (\<lambda>now. (now, 1)) nows) c"
  by (induction nows arbitrary: c) (simp_all add: increments_def count_token_incr_def)

lemma totals_fold_count_token_incr:
  "map snd (drop (length (counts c)) (counts (fold count_token_incr nows c))) =
     map (\<lambda>i. current c + of_nat i) [1..<Suc (length nows)]"
proof -
  have "sum_list (map snd (take (Suc i) (map (\<lambda>now. (now, 1 :: count_type)) nows))) = of_nat (Suc i)"
    if "i < length nows" for i
  proof -
    have "min (length nows) (Suc i) = Suc i"
      using that by simp
    then show ?thesis
      by (simp add: take_map comp_def sum_list_triv)
  qed
  then have "map (\<lambda>i. current c + sum_list (map snd (take (Suc i) (map (\<lambda>now. (now, 1)) nows))))
          [0..<length nows] = map (\<lambda>i. current c + of_nat (Suc i)) [0..<length nows]"
    by simp
  also have "\<dots> = map (\<lambda>i. current c + of_nat i) (map Suc [0..<length nows])"
    by (simp add: comp_def)
  also have "map Suc [0..<length nows] = [1..<Suc (length nows)]"
    by (simp only: map_Suc_upt One_nat_def)
  finally show ?thesis
    by (simp add: fold_count_token_incr counts_increments comp_def)
qed

text \<open>
  Claim C4. The entries a store is built with are part of its contents. After 100
  \<^verbatim>\<open>operator++\<close> calls on a counter built by the registry the store holds 10,000,100
  samples, not 100, and 10,000,000 of them carry the total 0, which is none of 1, ..., 100;
  after one \<^verbatim>\<open>operator()\<close> and one \<^verbatim>\<open>stop()\<close> on a timer built by the registry the
  store holds 10,000,001 samples, not one.
\<close>

theorem preallocation_visible_in_store:
  "length (counts (fold count_token_incr (map int [1..<101]) count_token_Internal)) = 10000100 \<and>
   take 10000000 (counts (fold count_token_incr (map int [1..<101]) count_token_Internal)) =
     replicate 10000000 (0, 0) \<and>
   map snd (drop 10000000
            (counts (fold count_token_incr (map int [1..<101]) count_token_Internal))) =
     map of_nat [1..<101] \<and>
   current (fold count_token_incr (map int [1..<101]) count_token_Internal) = 100 \<and>
   length (durations (stopper_stop (time_token_call p 10) 12 time_token_Internal)) = 10000001"
proof -
  let ?c = "fold count_token_incr (map int [1..<101]) count_token_Internal"
  have "map snd (drop 10000000 (counts ?c)) = map of_nat [1..<101]"
    using totals_fold_count_token_incr [of count_token_Internal "map int [1..<101]"]
    by (simp add: counts_Internal current_Internal)
  moreover have "length (counts ?c) = 10000100"
    by (simp add: fold_count_token_incr length_counts_increments counts_Internal)
  moreover have "take 10000000 (counts ?c) = replicate 10000000 (0, 0)"
    by (simp add: fold_count_token_incr counts_increments counts_Internal)
  moreover have "current ?c = 100"
    by (simp add: fold_count_token_incr current_increments current_Internal comp_def sum_list_triv)
  moreover have "length (durations (stopper_stop (time_token_call p 10) 12 time_token_Internal)) =
      10000001"
    by (simp add: stopper_stop_def emplace_back_def durations_Internal)
  ultimately show ?thesis
    by simp
qed

section \<open>Properties of the registry\<close>

subsection \<open>emplace and the three lookups\<close>

lemma emplace_present: "m k = Some v \<Longrightarrow> emplace m k w = m"
  by (simp add: emplace_def)

lemma emplace_absent: "m k = None \<Longrightarrow> emplace m k w = m(k \<mapsto> w)"
  by (simp add: emplace_def)

lemma emplace_same: "emplace m k w k = Some (case m k of None \<Rightarrow> w | Some v \<Rightarrow> v)"
  by (simp add: emplace_def split: option.splits)

lemma run_fst: "fst (run name r) = Inr name"
  by (simp add: run_def Let_def map_at_def emplace_same)

lemma count_fst: "fst (count name r) = Inr name"
  by (simp add: count_def Let_def map_at_def emplace_same)

lemma gauge_fst: "fst (gauge name r) = Inr name"
  by (simp add: gauge_def Let_def map_at_def emplace_same)

lemma run_snd: "snd (run name r) = r\<lparr>timers := emplace (timers r) name time_token_Internal\<rparr>"
  by (simp add: run_def Let_def)

lemma count_snd:
  "snd (count name r) = r\<lparr>counters := emplace (counters r) name count_token_Internal\<rparr>"
  by (simp add: count_def Let_def)

lemma gauge_snd:
  "snd (gauge name r) = r\<lparr>gauges := emplace (gauges r) name gauge_token_Internal\<rparr>"
  by (simp add: gauge_def Let_def)

lemma run_present: "timers r name = Some t \<Longrightarrow> run name r = (Inr name, r)"
  by (simp add: run_def Let_def map_at_def emplace_present)

lemma count_present: "counters r name = Some c \<Longrightarrow> count name r = (Inr name, r)"
  by (simp add: count_def Let_def map_at_def emplace_present)

lemma gauge_present: "gauges r name = Some g \<Longrightarrow> gauge name r = (Inr name, r)"
  by (simp add: gauge_def Let_def map_at_def emplace_present)

lemma on_timer_present:
  "timers r p = Some t \<Longrightarrow> on_timer p f r = Inr (r\<lparr>timers := (timers r)(p \<mapsto> f t)\<rparr>)"
  by (simp add: on_timer_def)

lemma on_counter_present:
  "counters r p = Some c \<Longrightarrow> on_counter p f r = Inr (r\<lparr>counters := (counters r)(p \<mapsto> f c)\<rparr>)"
  by (simp add: on_counter_def)

lemma on_gauge_present:
  "gauges r p = Some g \<Longrightarrow> on_gauge p f r = Inr (r\<lparr>gauges := (gauges r)(p \<mapsto> f g)\<rparr>)"
  by (simp add: on_gauge_def)

lemma run_idem: "run name (snd (run name r)) = (Inr name, snd (run name r))"
proof -
  obtain t where "timers (snd (run name r)) name = Some t"
    by (simp add: run_snd emplace_same)
  then show ?thesis by (rule run_present)
qed

lemma count_idem: "count name (snd (count name r)) = (Inr name, snd (count name r))"
proof -
  obtain c where "counters (snd (count name r)) name = Some c"
    by (simp add: count_snd emplace_same)
  then show ?thesis by (rule count_present)
qed

lemma gauge_idem: "gauge name (snd (gauge name r)) = (Inr name, snd (gauge name r))"
proof -
  obtain g where "gauges (snd (gauge name r)) name = Some g"
    by (simp add: gauge_snd emplace_same)
  then show ?thesis by (rule gauge_present)
qed

lemma run_twice_timer:
  "\<exists>t r2. timers (snd (run name r)) name = Some t \<and>
          on_timer name f (snd (run name r)) = Inr r2 \<and>
          timers r2 name = Some (f t) \<and>
          run name r2 = (Inr name, r2)"
proof -
  obtain t where t: "timers (snd (run name r)) name = Some t"
    by (simp add: run_snd emplace_same)
  let ?r2 = "(snd (run name r))\<lparr>timers := (timers (snd (run name r)))(name \<mapsto> f t)\<rparr>"
  have "on_timer name f (snd (run name r)) = Inr ?r2"
    using t by (rule on_timer_present)
  moreover have "timers ?r2 name = Some (f t)"
    by simp
  then have "run name ?r2 = (Inr name, ?r2)"
    by (rule run_present)
  ultimately show ?thesis
    using t by auto
qed

lemma count_twice_counter:
  "\<exists>c r2. counters (snd (count name r)) name = Some c \<and>
          on_counter name f (snd (count name r)) = Inr r2 \<and>
          counters r2 name = Some (f c) \<and>
          count name r2 = (Inr name, r2)"
proof -
  obtain c where c: "counters (snd (count name r)) name = Some c"
    by (simp add: count_snd emplace_same)
  let ?r2 = "(snd (count name r))\<lparr>counters := (counters (snd (count name r)))(name \<mapsto> f c)\<rparr>"
  have "on_counter name f (snd (count name r)) = Inr ?r2"
    using c by (rule on_counter_present)
  moreover have "counters ?r2 name = Some (f c)"
    by simp
  then have "count name ?r2 = (Inr name, ?r2)"
    by (rule count_present)
  ultimately show ?thesis
    using c by auto
qed

lemma gauge_twice_gauge:
  "\<exists>g r2. gauges (snd (gauge name r)) name = Some g \<and>
          on_gauge name f (snd (gauge name r)) = Inr r2 \<and>
          gauges r2 name = Some (f g) \<and>
          gauge name r2 = (Inr name, r2)"
proof -
  obtain g where g: "gauges (snd (gauge name r)) name = Some g"
    by (simp add: gauge_snd emplace_same)
  let ?r2 = "(snd (gauge name r))\<lparr>gauges := (gauges (snd (gauge name r)))(name \<mapsto> f g)\<rparr>"
  have "on_gauge name f (snd (gauge name r)) = Inr ?r2"
    using g by (rule on_gauge_present)
  moreover have "gauges ?r2 name = Some (f g)"
    by simp
  then have "gauge name ?r2 = (Inr name, ?r2)"
    by (rule gauge_present)
  ultimately show ?thesis
    using g by auto
qed

text \<open>
  Claim C2. For every name and every state of the registry, each of \<^verbatim>\<open>run\<close>,
  \<^verbatim>\<open>count\<close> and \<^verbatim>\<open>gauge\<close> returns a reference to the node of that name, and a second
  call with the same name returns the same reference and leaves the registry as it is:
  the entry is neither replaced nor removed. Whatever member call \<open>f\<close> is made through the
  first reference, the second call finds that very token, changed by \<open>f\<close>.
\<close>

theorem obtain_twice_same_recorder:
  "(run name (snd (run name r)) = (Inr name, snd (run name r)) \<and>
    (\<exists>t r2. fst (run name r) = Inr name \<and>
            timers (snd (run name r)) name = Some t \<and>
            on_timer name ft (snd (run name r)) = Inr r2 \<and>
            timers r2 name = Some (ft t) \<and>
            run name r2 = (Inr name, r2))) \<and>
   (count name (snd (count name r)) = (Inr name, snd (count name r)) \<and>
    (\<exists>c r2. fst (count name r) = Inr name \<and>
            counters (snd (count name r)) name = Some c \<and>
            on_counter name fc (snd (count name r)) = Inr r2 \<and>
            counters r2 name = Some (fc c) \<and>
            count name r2 = (Inr name, r2))) \<and>
   (gauge name (snd (gauge name r)) = (Inr name, snd (gauge name r)) \<and>
    (\<exists>g r2. fst (gauge name r) = Inr name \<and>
            gauges (snd (gauge name r)) name = Some g \<and>
            on_gauge name fg (snd (gauge name r)) = Inr r2 \<and>
            gauges r2 name = Some (fg g) \<and>
            gauge name r2 = (Inr name, r2)))"
  using run_twice_timer [of name r ft] count_twice_counter [of name r fc]
    gauge_twice_gauge [of name r fg]
  by (simp add: run_idem count_idem gauge_idem run_fst count_fst gauge_fst)

subsection \<open>Stopping a stopper again and again\<close>

lemma durations_fold_stop:
  "durations (fold (stopper_stop s) nows t) =
     durations t @ map (\<lambda>now. (now, now - start s)) nows"
  by (induction nows arbitrary: t) (simp_all add: stopper_stop_def emplace_back_def)

lemma registry_timers_triv: "timers r p = Some t \<Longrightarrow> r\<lparr>timers := (timers r)(p \<mapsto> t)\<rparr> = r"
  by (simp add: map_upd_triv)

lemma stop_all_eq:
  "timers r (time_tok s) = Some t \<Longrightarrow>
   stop_all s nows r =
     Inr (r\<lparr>timers := (timers r)(time_tok s \<mapsto> fold (stopper_stop s) nows t)\<rparr>)"
proof (induction nows arbitrary: r t)
  case Nil
  have "r\<lparr>timers := (timers r)(time_tok s \<mapsto> t)\<rparr> = r"
    using Nil by (rule registry_timers_triv)
  then show ?case by (simp only: stop_all.simps fold.simps id_apply)
next
  case (Cons now rest)
  let ?r1 = "r\<lparr>timers := (timers r)(time_tok s \<mapsto> stopper_stop s now t)\<rparr>"
  let ?t2 = "fold (stopper_stop s) rest (stopper_stop s now t)"
  have step: "stop s now r = Inr ?r1"
    using Cons.prems by (simp add: stop_def on_timer_present)
  have "timers ?r1 (time_tok s) = Some (stopper_stop s now t)"
    by simp
  from Cons.IH [OF this]
  have "stop_all s rest ?r1 = Inr (?r1\<lparr>timers := (timers ?r1)(time_tok s \<mapsto> ?t2)\<rparr>)" .
  also have "?r1\<lparr>timers := (timers ?r1)(time_tok s \<mapsto> ?t2)\<rparr> =
          r\<lparr>timers := (timers r)(time_tok s \<mapsto> fold (stopper_stop s) (now # rest) t)\<rparr>"
    by simp
  finally show ?case
    by (simp only: stop_all.simps step sum.case)
qed

lemma sorted_elapsed: "sorted (map (\<lambda>now. now - (t0::int)) nows) = sorted nows"
  by (induction nows) auto

text \<open>
  Claim C3, amended. Let \<open>p\<close> refer to a timer of the registry, let \<^verbatim>\<open>operator()\<close> on
  it return a stopper when the clock reads \<open>t0\<close>, and let \<^verbatim>\<open>stop()\<close> be called on that
  stopper N times, the clock reading \<open>nows\<close> in turn. Then every call succeeds and the
  timer's store is its old contents followed by exactly N samples, the i-th being the
  i-th reading paired with that reading minus \<open>t0\<close>. The elapsed values are non-decreasing
  across the successive stops exactly when the clock readings of those stops are: the
  clock is \<^verbatim>\<open>chrono::system_clock\<close>, which may be set back.
\<close>

theorem repeated_stop_appends:
  assumes "timers r p = Some t"
  shows "\<exists>r' t'. stop_all (time_token_call p t0) nows r = Inr r' \<and>
           timers r' p = Some t' \<and>
           durations t' = durations t @ map (\<lambda>now. (now, now - t0)) nows \<and>
           length (durations t') = length (durations t) + length nows \<and>
           sorted (map snd (drop (length (durations t)) (durations t'))) = sorted nows"
proof -
  let ?s = "time_token_call p t0"
  let ?t' = "fold (stopper_stop ?s) nows t"
  let ?r' = "r\<lparr>timers := (timers r)(p \<mapsto> ?t')\<rparr>"
  have s: "time_tok ?s = p" "start ?s = t0"
    by (simp_all add: time_token_call_def)
  have run: "stop_all ?s nows r = Inr ?r'"
    using stop_all_eq [of r ?s t nows] assms s by simp
  have d: "durations ?t' = durations t @ map (\<lambda>now. (now, now - t0)) nows"
    using durations_fold_stop [of ?s nows t] s by simp
  have "sorted (map snd (drop (length (durations t)) (durations ?t'))) = sorted nows"
    by (simp add: d comp_def sorted_elapsed)
  moreover have "timers ?r' p = Some ?t'"
    by simp
  ultimately show ?thesis
    using run d by (intro exI [of _ ?r'] exI [of _ ?t']) simp
qed

lemma main_registry_timers: "timers main_registry ''query'' = Some time_token_Internal"
  by (simp add: main_registry_def run_snd gauge_snd count_snd emplace_def create_def)

lemma main_registry_counters: "counters main_registry ''completed'' = Some count_token_Internal"
  by (simp add: main_registry_def run_snd gauge_snd count_snd emplace_def create_def)

lemma main_registry_gauges: "gauges main_registry ''threads'' = Some gauge_token_Internal"
  by (simp add: main_registry_def run_snd gauge_snd count_snd emplace_def create_def)

lemma main_registry_other: "gauges main_registry ''other'' = None"
  by (simp add: main_registry_def run_snd gauge_snd count_snd emplace_def create_def)

theorem repeated_stop_appends_witness:
  "timers main_registry ''query'' = Some time_token_Internal \<and> sorted [12, 15 :: time_point] \<and>
   (\<exists>r' t'. stop_all (time_token_call ''query'' 10) [12, 15] main_registry = Inr r' \<and>
      timers r' ''query'' = Some t' \<and>
      durations t' = durations time_token_Internal @ [(12, 2), (15, 5)] \<and>
      length (durations t') = length (durations time_token_Internal) + 2 \<and>
      sorted (map snd (drop (length (durations time_token_Internal)) (durations t'))))"
  using repeated_stop_appends [OF main_registry_timers, where ?t0.0 = 10 and nows = "[12, 15]"]
  by (simp add: main_registry_timers)

text \<open>
  Claim C3, as stated, fails where the clock is set back between two stops: on the
  timer of \<^verbatim>\<open>main\<close>, a stopper started at reading 10 and stopped at readings 12, 11 and
  12 records the elapsed values 2, 1 and 2.
\<close>

theorem stops_elapsed_counterexample:
  "stop_all (time_token_call ''query'' 10) [12, 11, 12] main_registry =
     Inr (main_registry\<lparr>timers := (timers main_registry)(''query'' \<mapsto>
            fold (stopper_stop (time_token_call ''query'' 10)) [12, 11, 12]
              time_token_Internal)\<rparr>) \<and>
   map snd (drop 10000000
     (durations (fold (stopper_stop (time_token_call ''query'' 10)) [12, 11, 12]
        time_token_Internal))) = [2, 1, 2] \<and>
   \<not> sorted (map snd (drop 10000000
     (durations (fold (stopper_stop (time_token_call ''query'' 10)) [12, 11, 12]
        time_token_Internal))))"
proof -
  let ?s = "time_token_call ''query'' 10"
  have "timers main_registry (time_tok ?s) = Some time_token_Internal"
    by (simp add: time_token_call_def main_registry_timers)
  then have "stop_all ?s [12, 11, 12] main_registry =
     Inr (main_registry\<lparr>timers := (timers main_registry)(time_tok ?s \<mapsto>
            fold (stopper_stop ?s) [12, 11, 12] time_token_Internal)\<rparr>)"
    by (rule stop_all_eq)
  moreover have "time_tok ?s = ''query''"
    by (simp add: time_token_call_def)
  moreover have "map snd (drop 10000000
     (durations (fold (stopper_stop ?s) [12, 11, 12] time_token_Internal))) = [2, 1, 2]"
    by (simp only: durations_fold_stop) (simp add: durations_Internal time_token_call_def)
  ultimately show ?thesis
    by simp
qed

subsection \<open>Stores only grow\<close>

lemma kept_refl: "kept x x"
  by (simp add: kept_def split: option.splits)

lemma kept_trans: "kept x y \<Longrightarrow> kept y z \<Longrightarrow> kept x z"
  by (auto simp: kept_def split: option.splits)

lemma kept_Some: "kept (Some xs) (Some ys) = prefix xs ys"
  by (simp add: kept_def)

lemma kept_emplace: "kept (map_option f (m n)) (map_option f (emplace m k w n))"
  by (cases "n = k") (auto simp: emplace_def kept_def split: option.splits)

lemma append_only_refl: "append_only r r"
  by (simp add: append_only_def kept_refl)

lemma append_only_trans: "append_only r r' \<Longrightarrow> append_only r' r'' \<Longrightarrow> append_only r r''"
  unfolding append_only_def by (blast intro: kept_trans)

lemma append_only_run: "append_only r (snd (run name r))"
  by (simp add: append_only_def run_snd kept_emplace kept_refl)

lemma append_only_count: "append_only r (snd (count name r))"
  by (simp add: append_only_def count_snd kept_emplace kept_refl)

lemma append_only_gauge: "append_only r (snd (gauge name r))"
  by (simp add: append_only_def gauge_snd kept_emplace kept_refl)

lemma append_only_on_timer:
  assumes "\<And>t. prefix (durations t) (durations (f t))" and "on_timer p f r = Inr r'"
  shows "append_only r r'"
proof (cases "timers r p")
  case None
  with assms(2) show ?thesis by (simp add: on_timer_def)
next
  case (Some t)
  with assms(2) have r': "r' = r\<lparr>timers := (timers r)(p \<mapsto> f t)\<rparr>"
    by (simp add: on_timer_def)
  show ?thesis
    unfolding append_only_def
  proof (intro allI conjI)
    fix n
    show "kept (map_option durations (timers r n)) (map_option durations (timers r' n))"
      using Some assms(1) [of t] by (cases "n = p") (simp_all add: r' kept_Some kept_refl)
    show "kept (map_option counts (counters r n)) (map_option counts (counters r' n))"
      by (simp add: r' kept_refl)
    show "kept (map_option readings (gauges r n)) (map_option readings (gauges r' n))"
      by (simp add: r' kept_refl)
  qed
qed

lemma append_only_on_counter:
  assumes "\<And>c. prefix (counts c) (counts (f c))" and "on_counter p f r = Inr r'"
  shows "append_only r r'"
proof (cases "counters r p")
  case None
  with assms(2) show ?thesis by (simp add: on_counter_def)
next
  case (Some c)
  with assms(2) have r': "r' = r\<lparr>counters := (counters r)(p \<mapsto> f c)\<rparr>"
    by (simp add: on_counter_def)
  show ?thesis
    unfolding append_only_def
  proof (intro allI conjI)
    fix n
    show "kept (map_option durations (timers r n)) (map_option durations (timers r' n))"
      by (simp add: r' kept_refl)
    show "kept (map_option counts (counters r n)) (map_option counts (counters r' n))"
      using Some assms(1) [of c] by (cases "n = p") (simp_all add: r' kept_Some kept_refl)
    show "kept (map_option readings (gauges r n)) (map_option readings (gauges r' n))"
      by (simp add: r' kept_refl)
  qed
qed

lemma append_only_on_gauge:
  assumes "\<And>g. prefix (readings g) (readings (f g))" and "on_gauge p f r = Inr r'"
  shows "append_only r r'"
proof (cases "gauges r p")
  case None
  with assms(2) show ?thesis by (simp add: on_gauge_def)
next
  case (Some g)
  with assms(2) have r': "r' = r\<lparr>gauges := (gauges r)(p \<mapsto> f g)\<rparr>"
    by (simp add: on_gauge_def)
  show ?thesis
    unfolding append_only_def
  proof (intro allI conjI)
    fix n
    show "kept (map_option durations (timers r n)) (map_option durations (timers r' n))"
      by (simp add: r' kept_refl)
    show "kept (map_option counts (counters r n)) (map_option counts (counters r' n))"
      by (simp add: r' kept_refl)
    show "kept (map_option readings (gauges r n)) (map_option readings (gauges r' n))"
      using Some assms(1) [of g] by (cases "n = p") (simp_all add: r' kept_Some kept_refl)
  qed
qed

lemma prefix_stopper_stop: "prefix (durations t) (durations (stopper_stop s now t))"
  by (simp add: stopper_stop_def emplace_back_def)

lemma prefix_count_token_add: "prefix (counts c) (counts (count_token_add now many c))"
  by (simp add: count_token_add_def emplace_back_def Let_def)

lemma prefix_gauge_token_set: "prefix (readings g) (readings (gauge_token_set now val g))"
  by (simp add: gauge_token_set_def emplace_back_def)

lemma append_only_stop: "stop s now r = Inr r' \<Longrightarrow> append_only r r'"
  unfolding stop_def by (rule append_only_on_timer [OF prefix_stopper_stop])

lemma append_only_increment: "increment p now many r = Inr r' \<Longrightarrow> append_only r r'"
  unfolding increment_def by (rule append_only_on_counter [OF prefix_count_token_add])

lemma append_only_set_gauge: "set_gauge p now val r = Inr r' \<Longrightarrow> append_only r r'"
  unfolding set_gauge_def by (rule append_only_on_gauge [OF prefix_gauge_token_set])

lemma append_only_stop_all: "stop_all s nows r = Inr r' \<Longrightarrow> append_only r r'"
proof (induction nows arbitrary: r)
  case Nil
  then show ?case by (simp add: append_only_refl)
next
  case (Cons now rest)
  then show ?case
    by (auto split: sum.splits intro: append_only_trans append_only_stop)
qed

text \<open>
  Claim C6. Every operation leaves every store of the registry as a prefix of what it
  is afterwards, and removes none: the three lookups, which may add a token under a new
  name, and \<^verbatim>\<open>stop\<close>, \<^verbatim>\<open>operator+=\<close> and \<^verbatim>\<open>set\<close>, which append to one store.
  \<^verbatim>\<open>operator()\<close> on a timer and the conversion of a gauge write nothing: the registry
  after them is the registry before them.
\<close>

theorem operations_append_only:
  "append_only r (snd (run name r)) \<and>
   append_only r (snd (count name r)) \<and>
   append_only r (snd (gauge name r)) \<and>
   (stop s now r = Inr r1 \<longrightarrow> append_only r r1) \<and>
   (increment p now many r = Inr r2 \<longrightarrow> append_only r r2) \<and>
   (set_gauge q now val r = Inr r3 \<longrightarrow> append_only r r3) \<and>
   append_only r r"
  by (simp add: append_only_run append_only_count append_only_gauge append_only_stop
      append_only_increment append_only_set_gauge append_only_refl)

theorem operations_append_only_witness:
  "stop (time_token_call ''query'' 10) 12 main_registry =
     Inr (main_registry\<lparr>timers := (timers main_registry)(''query'' \<mapsto>
            stopper_stop (time_token_call ''query'' 10) 12 time_token_Internal)\<rparr>) \<and>
   increment ''completed'' 12 100 main_registry =
     Inr (main_registry\<lparr>counters := (counters main_registry)(''completed'' \<mapsto>
            count_token_add 12 100 count_token_Internal)\<rparr>) \<and>
   set_gauge ''threads'' 12 50 main_registry =
     Inr (main_registry\<lparr>gauges := (gauges main_registry)(''threads'' \<mapsto>
            gauge_token_set 12 50 gauge_token_Internal)\<rparr>) \<and>
   append_only main_registry (snd (run ''other'' main_registry)) \<and>
   append_only main_registry (snd (count ''other'' main_registry)) \<and>
   append_only main_registry (snd (gauge ''other'' main_registry)) \<and>
   append_only main_registry
     (main_registry\<lparr>timers := (timers main_registry)(''query'' \<mapsto>
            stopper_stop (time_token_call ''query'' 10) 12 time_token_Internal)\<rparr>) \<and>
   append_only main_registry
     (main_registry\<lparr>counters := (counters main_registry)(''completed'' \<mapsto>
            count_token_add 12 100 count_token_Internal)\<rparr>) \<and>
   append_only main_registry
     (main_registry\<lparr>gauges := (gauges main_registry)(''threads'' \<mapsto>
            gauge_token_set 12 50 gauge_token_Internal)\<rparr>)"
proof -
  let ?s = "time_token_call ''query'' 10"
  let ?r1 = "main_registry\<lparr>timers := (timers main_registry)(''query'' \<mapsto>
            stopper_stop ?s 12 time_token_Internal)\<rparr>"
  let ?r2 = "main_registry\<lparr>counters := (counters main_registry)(''completed'' \<mapsto>
            count_token_add 12 100 count_token_Internal)\<rparr>"
  let ?r3 = "main_registry\<lparr>gauges := (gauges main_registry)(''threads'' \<mapsto>
            gauge_token_set 12 50 gauge_token_Internal)\<rparr>"
  have h1: "stop ?s 12 main_registry = Inr ?r1"
    by (simp add: stop_def on_timer_def time_token_call_def main_registry_timers)
  have h2: "increment ''completed'' 12 100 main_registry = Inr ?r2"
    by (simp add: increment_def on_counter_def main_registry_counters)
  have h3: "set_gauge ''threads'' 12 50 main_registry = Inr ?r3"
    by (simp add: set_gauge_def on_gauge_def main_registry_gauges)
  show ?thesis
    using operations_append_only [where r = main_registry and name = "''other''" and s = ?s
        and now = 12 and ?r1.0 = ?r1 and p = "''completed''" and many = 100 and ?r2.0 = ?r2
        and q = "''threads''" and val = 50 and ?r3.0 = ?r3]
      h1 h2 h3
    by simp
qed

subsection \<open>No operation fails\<close>

text \<open>
  Claim C7. No lookup throws: \<^verbatim>\<open>at\<close> always finds the name that \<^verbatim>\<open>emplace\<close> has
  just ensured. Through a reference to a token of the registry, \<^verbatim>\<open>stop\<close> any number
  of times on one stopper, \<^verbatim>\<open>operator+=\<close>, \<^verbatim>\<open>set\<close> and the conversion of a gauge all
  return normally; the conversion returns normally on every gauge state, its guard
  keeping \<^verbatim>\<open>back()\<close> away from an empty vector, and yields 0 on a gauge just built.
  Adding 0 to a counter appends a sample with the unchanged total. (Exhaustion of memory
  is outside the model.)
\<close>

theorem operations_total:
  "fst (run name r) = Inr name \<and> fst (count name r) = Inr name \<and> fst (gauge name r) = Inr name \<and>
   (timers r (time_tok s) \<noteq> None \<longrightarrow> (\<exists>r'. stop_all s nows r = Inr r')) \<and>
   (counters r p \<noteq> None \<longrightarrow> (\<exists>r'. increment p now many r = Inr r')) \<and>
   (gauges r q \<noteq> None \<longrightarrow>
      (\<exists>r'. set_gauge q now val r = Inr r') \<and> (\<exists>v. current_value q r = Inr v)) \<and>
   (gauges r name = None \<longrightarrow> current_value name (snd (gauge name r)) = Inr 0) \<and>
   (\<exists>v. gauge_token_cast g = Inr v) \<and>
   count_token_add now 0 c = c\<lparr>counts := counts c @ [(now, current c)]\<rparr>"
proof -
  have "timers r (time_tok s) \<noteq> None \<longrightarrow> (\<exists>r'. stop_all s nows r = Inr r')"
    using stop_all_eq [of r s _ nows] by auto
  moreover have "counters r p \<noteq> None \<longrightarrow> (\<exists>r'. increment p now many r = Inr r')"
    by (auto simp: increment_def on_counter_def)
  moreover have "gauges r q \<noteq> None \<longrightarrow>
      (\<exists>r'. set_gauge q now val r = Inr r') \<and> (\<exists>v. current_value q r = Inr v)"
    using gauge_token_cast_total by (auto simp: set_gauge_def on_gauge_def current_value_def)
  moreover have "gauges r name = None \<longrightarrow> current_value name (snd (gauge name r)) = Inr 0"
    by (simp add: gauge_snd emplace_absent current_value_def gauge_token_cast_Internal)
  moreover have "count_token_add now 0 c = c\<lparr>counts := counts c @ [(now, current c)]\<rparr>"
    by (simp add: count_token_add_def emplace_back_def)
  ultimately show ?thesis
    using gauge_token_cast_total [of g] by (simp add: run_fst count_fst gauge_fst)
qed

theorem operations_total_witness:
  "timers main_registry (time_tok (time_token_call ''query'' 10)) \<noteq> None \<and>
   counters main_registry ''completed'' \<noteq> None \<and>
   gauges main_registry ''threads'' \<noteq> None \<and>
   gauges main_registry ''other'' = None \<and>
   fst (run ''other'' main_registry) = Inr ''other'' \<and>
   fst (count ''other'' main_registry) = Inr ''other'' \<and>
   fst (gauge ''other'' main_registry) = Inr ''other'' \<and>
   (\<exists>r'. stop_all (time_token_call ''query'' 10) [12, 11, 12] main_registry = Inr r') \<and>
   (\<exists>r'. increment ''completed'' 12 0 main_registry = Inr r') \<and>
   (\<exists>r'. set_gauge ''threads'' 12 50 main_registry = Inr r') \<and>
   (\<exists>v. current_value ''threads'' main_registry = Inr v) \<and>
   current_value ''other'' (snd (gauge ''other'' main_registry)) = Inr 0 \<and>
   (\<exists>v. gauge_token_cast \<lparr>readings = []\<rparr> = Inr v) \<and>
   count_token_add 12 0 \<lparr>counts = [(3, 7)], current = 7\<rparr> =
     \<lparr>counts = [(3, 7), (12, 7)], current = 7\<rparr>"
  using operations_total [where name = "''other''" and r = main_registry
      and s = "time_token_call ''query'' 10" and nows = "[12, 11, 12]" and p = "''completed''"
      and now = 12 and many = 0 and q = "''threads''" and val = 50
      and g = "\<lparr>readings = []\<rparr>" and c = "\<lparr>counts = [(3, 7)], current = 7\<rparr>"]
  by (simp add: main_registry_timers main_registry_counters main_registry_gauges
      main_registry_other time_token_call_def)

end
